theory Spec2Isabelle
  imports Main "HOL-Library.Word"
begin

unbundle bit_operations_syntax

section \<open>Machine types and C arithmetic\<close>

text \<open>
  The fixed-width types of \<^verbatim>\<open>Adafruit_MonoOLED.cpp\<close> are words; a signed one is read
  through \<open>sint\<close>.  Operands of C arithmetic are promoted to \<^verbatim>\<open>int\<close> first: the promoted
  values are HOL integers, on which \<open>AND\<close>, \<open>OR\<close>, \<open>XOR\<close> and \<open>NOT\<close> are the two's
  complement operations.  Every promoted value computed below from 16-bit operands lies
  between \<open>- (2 ^ 31)\<close> and \<open>2 ^ 31\<close>, so a 32-bit \<^verbatim>\<open>int\<close> computes the same numbers;
  lemma \<open>index_range\<close> bounds the buffer index and the product in it by the allocation
  size, which covers a narrower \<^verbatim>\<open>int\<close> whenever the allocation size itself fits.
\<close>

type_synonym int8_t = "8 word"
type_synonym uint8_t = "8 word"
type_synonym int16_t = "16 word"
type_synonym uint16_t = "16 word"

text \<open>Storing an \<^verbatim>\<open>int\<close> into a narrower variable keeps its low bits.\<close>

definition to_int16 :: "int \<Rightarrow> int16_t" where
  "to_int16 k = word_of_int k"

definition to_uint8 :: "int \<Rightarrow> uint8_t" where
  "to_uint8 k = word_of_int k"

text \<open>The quotient of C's \<^verbatim>\<open>/\<close> is rounded towards zero.\<close>

definition c_div :: "int \<Rightarrow> int \<Rightarrow> int" where
  "c_div a b = (if (a < 0) = (b < 0) then \<bar>a\<bar> div \<bar>b\<bar> else - (\<bar>a\<bar> div \<bar>b\<bar>))"

section \<open>The display object\<close>

text \<open>
  The fields of \<^verbatim>\<open>Adafruit_MonoOLED\<close> that the functions below read or write.  \<open>WIDTH\<close>,
  \<open>HEIGHT\<close>, \<open>width\<close> (the \<^verbatim>\<open>_width\<close> that \<^verbatim>\<open>width()\<close> returns), \<open>height\<close> and \<open>rotation\<close>
  are inherited from \<^verbatim>\<open>Adafruit_GFX\<close>.  A pointer is \<open>None\<close> or \<open>False\<close> when it is NULL:
  \<open>buffer\<close> holds the bytes of the allocated block, \<open>i2c_dev\<close> the bus address its device
  was created for, \<open>theWire\<close> and \<open>spi_dev\<close> only say whether the pointer is set.
\<close>

record oled =
  WIDTH :: int16_t
  HEIGHT :: int16_t
  width :: int16_t
  height :: int16_t
  rotation :: uint8_t
  buffer :: "uint8_t list option"
  dcPin :: int8_t
  csPin :: int8_t
  rstPin :: int8_t
  theWire :: bool
  i2c_dev :: "uint8_t option"
  spi_dev :: bool

definition getRotation :: "oled \<Rightarrow> uint8_t" where
  "getRotation s = rotation s"

text \<open>
  Modelled from the spec: the header \<^verbatim>\<open>Adafruit_MonoOLED.h\<close> with the colour macros is
  not among the sources.  The comment on \<^verbatim>\<open>invertDisplay\<close> gives \<^verbatim>\<open>MONOOLED_BLACK\<close> the
  value 0 and \<^verbatim>\<open>MONOOLED_WHITE\<close> the value 1; \<^verbatim>\<open>MONOOLED_INVERSE\<close> is the third value of
  the spec's tri-state colour.  The three are labels of one \<^verbatim>\<open>switch\<close>, hence distinct.
\<close>

definition MONOOLED_BLACK :: uint16_t where
  "MONOOLED_BLACK = 0"

definition MONOOLED_WHITE :: uint16_t where
  "MONOOLED_WHITE = 1"

definition MONOOLED_INVERSE :: uint16_t where
  "MONOOLED_INVERSE = 2"

text \<open>
  Modelled from the spec: \<^verbatim>\<open>Adafruit_GFX\<close>, the graphics base class, is not among the
  sources.  Its constructor stores the physical size and starts unrotated; its
  \<^verbatim>\<open>setRotation\<close> keeps a rotation in \<open>0..3\<close> and exposes the logical, post-rotation
  width and height: swapped for the rotations 1 and 3.
\<close>

definition Adafruit_GFX :: "int16_t \<Rightarrow> int16_t \<Rightarrow> oled \<Rightarrow> oled" where
  "Adafruit_GFX w h s = s\<lparr>WIDTH := w, HEIGHT := h, width := w, height := h, rotation := 0\<rparr>"

definition setRotation :: "oled \<Rightarrow> uint8_t \<Rightarrow> oled" where
  "setRotation s r =
     (let rot = r AND 3 in
      if rot = 0 \<or> rot = 2
      then s\<lparr>rotation := rot, width := WIDTH s, height := HEIGHT s\<rparr>
      else s\<lparr>rotation := rot, width := HEIGHT s, height := WIDTH s\<rparr>)"

text \<open>
  The constructors (lines 82--157): the one for I2C, and the two for software and
  hardware SPI, which differ only in the transport device they create.  A member that a
  constructor does not mention starts as NULL.  The \<^verbatim>\<open>uint16_t\<close> size arguments are handed to \<^verbatim>\<open>Adafruit_GFX\<close> as
  \<^verbatim>\<open>int16_t\<close>, which keeps the 16 bits.
\<close>

definition blank :: oled where
  "blank = \<lparr>WIDTH = 0, HEIGHT = 0, width = 0, height = 0, rotation = 0, buffer = None,
            dcPin = 0, csPin = 0, rstPin = 0, theWire = False, i2c_dev = None,
            spi_dev = False\<rparr>"

definition MonoOLED_i2c :: "uint16_t \<Rightarrow> uint16_t \<Rightarrow> bool \<Rightarrow> int8_t \<Rightarrow> oled" where
  "MonoOLED_i2c w h twi rst_pin =
     (Adafruit_GFX w h blank)\<lparr>buffer := None, dcPin := - 1, csPin := - 1, rstPin := rst_pin,
                               i2c_dev := None, theWire := twi\<rparr>"

definition MonoOLED_spi :: "uint16_t \<Rightarrow> uint16_t \<Rightarrow> int8_t \<Rightarrow> int8_t \<Rightarrow> int8_t \<Rightarrow> oled" where
  "MonoOLED_spi w h dc_pin rst_pin cs_pin =
     (Adafruit_GFX w h blank)\<lparr>dcPin := dc_pin, csPin := cs_pin, rstPin := rst_pin,
                               spi_dev := True\<rparr>"

section \<open>Pixel operations\<close>

text \<open>\<^verbatim>\<open>monooled_swap(a, b)\<close>: \<^verbatim>\<open>a ^= b, b ^= a, a ^= b\<close> on two 16-bit variables.\<close>

definition monooled_swap :: "int16_t \<times> int16_t \<Rightarrow> int16_t \<times> int16_t" where
  "monooled_swap p =
     (let (a, b) = p;
          a = a XOR b;
          b = b XOR a;
          a = a XOR b
      in (a, b))"

text \<open>The test \<^verbatim>\<open>(x >= 0) && (x < width()) && (y >= 0) && (y < height())\<close>.\<close>

definition in_bounds :: "oled \<Rightarrow> int16_t \<Rightarrow> int16_t \<Rightarrow> bool" where
  "in_bounds s x y \<longleftrightarrow>
     0 \<le> sint x \<and> sint x < sint (width s) \<and> 0 \<le> sint y \<and> sint y < sint (height s)"

text \<open>
  The \<^verbatim>\<open>switch (getRotation())\<close> of \<^verbatim>\<open>drawPixel\<close> and \<^verbatim>\<open>getPixel\<close>; it has no
  \<^verbatim>\<open>default\<close>, every other rotation value leaves the coordinates alone.
\<close>

definition rotate_coords :: "oled \<Rightarrow> int16_t \<times> int16_t \<Rightarrow> int16_t \<times> int16_t" where
  "rotate_coords s p =
     (if getRotation s = 1 then
        (let (x, y) = monooled_swap p;
             x = to_int16 (sint (WIDTH s) - sint x - 1)
         in (x, y))
      else if getRotation s = 2 then
        (let (x, y) = p;
             x = to_int16 (sint (WIDTH s) - sint x - 1);
             y = to_int16 (sint (HEIGHT s) - sint y - 1)
         in (x, y))
      else if getRotation s = 3 then
        (let (x, y) = monooled_swap p;
             y = to_int16 (sint (HEIGHT s) - sint y - 1)
         in (x, y))
      else p)"

text \<open>The subscript \<^verbatim>\<open>x + (y / 8) * WIDTH\<close> and the mask \<^verbatim>\<open>1 << (y & 7)\<close>.\<close>

definition buffer_index :: "oled \<Rightarrow> int16_t \<times> int16_t \<Rightarrow> int" where
  "buffer_index s p = (let (x, y) = p in sint x + c_div (sint y) 8 * sint (WIDTH s))"

definition bit_mask :: "int16_t \<times> int16_t \<Rightarrow> int" where
  "bit_mask p = (let (x, y) = p in push_bit (nat (sint y AND 7)) 1)"

text \<open>
  A read-modify-write of \<^verbatim>\<open>buffer[i]\<close>.  Outside the allocated block, or with a NULL
  \<^verbatim>\<open>buffer\<close>, the access has no defined behaviour: the result is \<open>None\<close>.
\<close>

definition buffer_modify :: "oled \<Rightarrow> int \<Rightarrow> (uint8_t \<Rightarrow> uint8_t) \<Rightarrow> oled option" where
  "buffer_modify s i f =
     (case buffer s of
        None \<Rightarrow> None
      | Some buf \<Rightarrow>
          if 0 \<le> i \<and> i < int (length buf)
          then Some (s\<lparr>buffer := Some (buf[nat i := f (buf ! nat i)])\<rparr>)
          else None)"

definition buffer_read :: "oled \<Rightarrow> int \<Rightarrow> uint8_t option" where
  "buffer_read s i =
     (case buffer s of
        None \<Rightarrow> None
      | Some buf \<Rightarrow> if 0 \<le> i \<and> i < int (length buf) then Some (buf ! nat i) else None)"

text \<open>\<^verbatim>\<open>drawPixel\<close> (lines 280--309).\<close>

definition drawPixel :: "oled \<Rightarrow> int16_t \<Rightarrow> int16_t \<Rightarrow> uint16_t \<Rightarrow> oled option" where
  "drawPixel s x y color =
     (if in_bounds s x y then
        (let p = rotate_coords s (x, y);
             i = buffer_index s p;
             m = bit_mask p
         in if color = MONOOLED_WHITE then
              buffer_modify s i (\<lambda>b. to_uint8 (uint b OR m))
            else if color = MONOOLED_BLACK then
              buffer_modify s i (\<lambda>b. to_uint8 (uint b AND NOT m))
            else if color = MONOOLED_INVERSE then
              buffer_modify s i (\<lambda>b. to_uint8 (uint b XOR m))
            else Some s)
      else Some s)"

text \<open>\<^verbatim>\<open>getPixel\<close> (lines 333--353); the \<^verbatim>\<open>int\<close> it returns is true when it is not 0.\<close>

definition getPixel :: "oled \<Rightarrow> int16_t \<Rightarrow> int16_t \<Rightarrow> bool option" where
  "getPixel s x y =
     (if in_bounds s x y then
        (let p = rotate_coords s (x, y)
         in case buffer_read s (buffer_index s p) of
              None \<Rightarrow> None
            | Some b \<Rightarrow> Some (uint b AND bit_mask p \<noteq> 0))
      else Some False)"

text \<open>
  The size \<^verbatim>\<open>WIDTH * ((HEIGHT + 7) / 8)\<close> that \<^verbatim>\<open>_init\<close> allocates and
  \<^verbatim>\<open>clearDisplay\<close> (lines 318--320) fills with 0.  \<^verbatim>\<open>memset\<close> beyond the block, or a
  negative size (a huge \<^verbatim>\<open>size_t\<close>), has no defined behaviour.
\<close>

definition alloc_size :: "oled \<Rightarrow> int" where
  "alloc_size s = sint (WIDTH s) * c_div (sint (HEIGHT s) + 7) 8"

definition clearDisplay :: "oled \<Rightarrow> oled option" where
  "clearDisplay s =
     (case buffer s of
        None \<Rightarrow> None
      | Some buf \<Rightarrow>
          (let n = alloc_size s
           in if 0 \<le> n \<and> n \<le> int (length buf)
              then Some (s\<lparr>buffer := Some (replicate (nat n) 0 @ drop (nat n) buf)\<rparr>)
              else None))"

section \<open>Consistent states\<close>

text \<open>
  What the constructors, \<^verbatim>\<open>setRotation\<close> and a successful \<^verbatim>\<open>_init\<close> establish: the
  rotation is one of 0..3, the logical size is the physical one, swapped for the odd
  rotations, and the buffer is a block of the allocation size.
\<close>

definition geometry_ok :: "oled \<Rightarrow> bool" where
  "geometry_ok s \<longleftrightarrow>
     (if rotation s = 0 \<or> rotation s = 2
      then width s = WIDTH s \<and> height s = HEIGHT s
      else (rotation s = 1 \<or> rotation s = 3) \<and> width s = HEIGHT s \<and> height s = WIDTH s)"

definition buffer_ok :: "oled \<Rightarrow> bool" where
  "buffer_ok s \<longleftrightarrow>
     (case buffer s of None \<Rightarrow> False | Some buf \<Rightarrow> int (length buf) = alloc_size s)"

section \<open>The pixel addressing of the specification\<close>

text \<open>
  The rotation transform in the words of the specification, on mathematical integers,
  with \<open>W\<close> and \<open>H\<close> the unrotated physical size: rotation 0 is the identity, rotation 1
  swaps and then mirrors \<open>x\<close>, rotation 2 mirrors both, rotation 3 swaps and then mirrors
  \<open>y\<close>.
\<close>

definition spec_transform :: "nat \<Rightarrow> int \<Rightarrow> int \<Rightarrow> int \<times> int \<Rightarrow> int \<times> int" where
  "spec_transform r W H p =
     (let (x, y) = p
      in if r = 1 then (let (x, y) = (y, x) in (W - x - 1, y))
         else if r = 2 then (W - x - 1, H - y - 1)
         else if r = 3 then (let (x, y) = (y, x) in (x, H - y - 1))
         else (x, y))"

text \<open>The byte \<open>x' + (y'/8)*W\<close> and the bit \<open>y' & 7\<close> of the layout invariant.\<close>

definition spec_byte :: "oled \<Rightarrow> int16_t \<Rightarrow> int16_t \<Rightarrow> int" where
  "spec_byte s x y =
     (let (x', y') = spec_transform (unat (rotation s)) (sint (WIDTH s)) (sint (HEIGHT s))
                       (sint x, sint y)
      in x' + (y' div 8) * sint (WIDTH s))"

definition spec_bit :: "oled \<Rightarrow> int16_t \<Rightarrow> int16_t \<Rightarrow> nat" where
  "spec_bit s x y =
     (let (x', y') = spec_transform (unat (rotation s)) (sint (WIDTH s)) (sint (HEIGHT s))
                       (sint x, sint y)
      in nat (y' AND 7))"

text \<open>The storage update of the specification: ON sets the bit, OFF clears it, INVERT toggles it.\<close>

definition paint :: "uint16_t \<Rightarrow> nat \<Rightarrow> uint8_t \<Rightarrow> uint8_t" where
  "paint color k b =
     (if color = MONOOLED_WHITE then set_bit k b
      else if color = MONOOLED_BLACK then unset_bit k b
      else if color = MONOOLED_INVERSE then flip_bit k b
      else b)"

section \<open>Hardware, transports and bring-up\<close>

text \<open>
  What the code does to the outside world is a trace of events, in program order: the
  calls of \<^verbatim>\<open>pinMode\<close>, \<^verbatim>\<open>digitalWrite\<close> and \<^verbatim>\<open>delay\<close>, the creation and \<^verbatim>\<open>begin()\<close> of
  a transport device, and the \<^verbatim>\<open>write\<close> calls on it (\<open>I2C_write data stop prefix\<close>).
\<close>

datatype level = LOW | HIGH

datatype pin_mode = INPUT | OUTPUT

datatype hw_event =
    PinMode int8_t pin_mode
  | DigitalWrite int8_t level
  | Delay nat
  | I2C_new uint8_t
  | I2C_begin
  | SPI_begin
  | I2C_write "uint8_t list" bool "uint8_t list"
  | SPI_write "uint8_t list"

text \<open>
  What the outside world answers: whether \<^verbatim>\<open>malloc\<close> and \<^verbatim>\<open>new\<close> find memory, what a
  fresh block holds, and whether a transport call reports success.
\<close>

record env =
  malloc_ok :: bool
  malloc_contents :: "nat \<Rightarrow> uint8_t"
  i2c_new_ok :: bool
  i2c_begin_ok :: bool
  spi_begin_ok :: bool
  i2c_write_ok :: bool

text \<open>The \<^verbatim>\<open>digitalWrite\<close> and \<^verbatim>\<open>delay\<close> events of a trace.\<close>

fun pin_activity :: "hw_event list \<Rightarrow> hw_event list" where
  "pin_activity [] = []"
| "pin_activity (DigitalWrite p l # es) = DigitalWrite p l # pin_activity es"
| "pin_activity (Delay n # es) = Delay n # pin_activity es"
| "pin_activity (e # es) = pin_activity es"

text \<open>
  The loop \<^verbatim>\<open>while (n--) { b = pgm_read_byte(c++); spi_dev->write(&b, 1); }\<close> of
  \<^verbatim>\<open>oled_commandList\<close>, on the rest of the command table.  Reading past the end of the
  table has no defined behaviour.
\<close>

function spi_stream :: "uint8_t \<Rightarrow> uint8_t list \<Rightarrow> hw_event list \<Rightarrow> hw_event list option" where
  "spi_stream n c tr =
     (if n \<noteq> 0 then
        (case c of
           [] \<Rightarrow> None
         | b # c' \<Rightarrow> spi_stream (n - 1) c' (tr @ [SPI_write [b]]))
      else Some tr)"
  by pat_completeness auto
termination
  by (relation "measure (\<lambda>(n, c, tr). unat n)") (auto simp add: unat_minus_one unat_gt_0)

declare spi_stream.simps [simp del]

text \<open>
  \<^verbatim>\<open>oled_commandList\<close> (lines 187--201).  The command table is the list \<open>c\<close>; a table
  shorter than \<open>n\<close>, or a NULL \<^verbatim>\<open>spi_dev\<close> on the serial path, has no defined behaviour.
\<close>

definition oled_commandList ::
  "env \<Rightarrow> oled \<Rightarrow> hw_event list \<Rightarrow> uint8_t list \<Rightarrow> uint8_t \<Rightarrow> (bool \<times> hw_event list) option" where
  "oled_commandList e s tr c n =
     (if i2c_dev s \<noteq> None then
        (if unat n \<le> length c then
           (let dc_byte = 0x00;
                tr' = tr @ [I2C_write (take (unat n) c) True [dc_byte]]
            in if \<not> i2c_write_ok e then Some (False, tr') else Some (True, tr'))
         else None)
      else if spi_dev s then
        (case spi_stream n c (tr @ [DigitalWrite (dcPin s) LOW]) of
           None \<Rightarrow> None
         | Some tr' \<Rightarrow> Some (True, tr'))
      else None)"

text \<open>
  What a call of \<^verbatim>\<open>_init\<close> hands back: a \<^verbatim>\<open>return\<close> with a boolean, or the bare
  \<^verbatim>\<open>return;\<close> of line 241, which gives the caller no value.
\<close>

datatype init_return = Returns bool | ReturnsNoValue

text \<open>
  \<^verbatim>\<open>_init\<close> (lines 225--260).  \<open>allocate\<close> is the \<^verbatim>\<open>malloc\<close> of line 228, which is only
  called while \<^verbatim>\<open>buffer\<close> is NULL; a negative size is a request beyond the address space
  and fails.  \<open>init_tail\<close> is the part after the transport is open (lines 246--259).
\<close>

definition allocate :: "env \<Rightarrow> oled \<Rightarrow> oled" where
  "allocate e s =
     (if buffer s = None then
        s\<lparr>buffer :=
            (if malloc_ok e \<and> 0 \<le> alloc_size s
             then Some (map (malloc_contents e) [0..<nat (alloc_size s)])
             else None)\<rparr>
      else s)"

definition init_tail ::
  "oled \<Rightarrow> hw_event list \<Rightarrow> bool \<Rightarrow> (init_return \<times> oled \<times> hw_event list) option" where
  "init_tail s tr reset =
     (case clearDisplay s of
        None \<Rightarrow> None
      | Some s' \<Rightarrow>
          Some (Returns True, s',
                if reset \<and> 0 \<le> sint (rstPin s')
                then tr @ [PinMode (rstPin s') OUTPUT,
                           DigitalWrite (rstPin s') HIGH, Delay 1,
                           DigitalWrite (rstPin s') LOW, Delay 10,
                           DigitalWrite (rstPin s') HIGH, Delay 10]
                else tr))"

definition oled_init ::
  "env \<Rightarrow> oled \<Rightarrow> hw_event list \<Rightarrow> uint8_t \<Rightarrow> bool \<Rightarrow> (init_return \<times> oled \<times> hw_event list) option" where
  "oled_init e s tr addr reset =
     (let s = allocate e s
      in if buffer s = None then Some (Returns False, s, tr)
         else if theWire s then
           (let s = s\<lparr>i2c_dev := (if i2c_new_ok e then Some addr else None)\<rparr>;
                tr = tr @ [I2C_new addr]
            in if i2c_dev s = None then Some (Returns False, s, tr)
               else if \<not> i2c_begin_ok e then Some (Returns False, s, tr @ [I2C_begin])
               else init_tail s (tr @ [I2C_begin]) reset)
         else
           (if \<not> spi_dev s then Some (ReturnsNoValue, s, tr)
            else if \<not> spi_begin_ok e then Some (ReturnsNoValue, s, tr @ [SPI_begin])
            else init_tail s (tr @ [SPI_begin, PinMode (dcPin s) OUTPUT]) reset))"

section \<open>A small display\<close>

text \<open>
  A display of 4 by 16 pixels on I2C with reset pin 4, its buffer of 8 bytes allocated,
  two pixels lit; and an outside world in which every call succeeds.
\<close>

definition demo :: oled where
  "demo = (MonoOLED_i2c 4 16 True 4)\<lparr>buffer := Some [0, 0, 0, 0, 0, 0x81, 0, 0]\<rparr>"

definition all_ok :: env where
  "all_ok = \<lparr>malloc_ok = True, malloc_contents = (\<lambda>i. 0xAA), i2c_new_ok = True,
             i2c_begin_ok = True, spi_begin_ok = True, i2c_write_ok = True\<rparr>"

section \<open>Bits, bytes and coordinates\<close>

lemma monooled_swap_eq: "monooled_swap (a, b) = (b, a)"
  by (simp add: monooled_swap_def Let_def xor.commute xor.left_commute)

lemma sint_to_int16: "- 32768 \<le> k \<Longrightarrow> k < 32768 \<Longrightarrow> sint (to_int16 k) = k"
  unfolding to_int16_def by (simp add: sint_sbintrunc' signed_take_bit_int_eq_self)

lemma sint16_range: "- 32768 \<le> sint (w :: int16_t) \<and> sint w < 32768"
  using sint_ge [of w] sint_lt [of w] by simp

lemma c_div_nonneg: "0 \<le> a \<Longrightarrow> c_div a 8 = a div 8"
  by (simp add: c_div_def)

lemma and_7_mod: "(k :: int) AND 7 = k mod 8"
  using take_bit_eq_mask [of 3 k] by (simp add: mask_eq_exp_minus_1 take_bit_eq_mod)

lemma or_byte: "k < 8 \<Longrightarrow> to_uint8 (uint b OR 2 ^ k) = set_bit k b"
  unfolding to_uint8_def
  by (rule bit_word_eqI) (auto simp add: bit_simps)

lemma and_not_byte: "k < 8 \<Longrightarrow> to_uint8 (uint b AND NOT (2 ^ k)) = unset_bit k b"
  unfolding to_uint8_def
  by (rule bit_word_eqI) (auto simp add: bit_simps)

lemma xor_byte: "k < 8 \<Longrightarrow> to_uint8 (uint b XOR 2 ^ k) = flip_bit k b"
  unfolding to_uint8_def
  by (rule bit_word_eqI) (auto simp add: bit_simps)

lemma test_byte: "(uint (b :: uint8_t) AND 2 ^ k \<noteq> 0) = bit b k"
proof -
  have "uint b AND 2 ^ k = (if bit b k then 2 ^ k else 0)"
    by (rule bit_eqI) (auto simp add: bit_simps)
  then show ?thesis by simp
qed

lemma colors_distinct:
  "MONOOLED_WHITE \<noteq> MONOOLED_BLACK" "MONOOLED_INVERSE \<noteq> MONOOLED_BLACK"
  "MONOOLED_INVERSE \<noteq> MONOOLED_WHITE"
  by (simp_all add: MONOOLED_WHITE_def MONOOLED_BLACK_def MONOOLED_INVERSE_def)

text \<open>
  In a consistent state the code's rotation of an in-bounds coordinate is the
  specification's transform, and lands inside the physical display.
\<close>

lemma rotate_spec:
  assumes g: "geometry_ok s" and b: "in_bounds s x y"
  shows "\<exists>x' y'. rotate_coords s (x, y) = (x', y') \<and>
           (sint x', sint y') =
             spec_transform (unat (rotation s)) (sint (WIDTH s)) (sint (HEIGHT s)) (sint x, sint y) \<and>
           0 \<le> sint x' \<and> sint x' < sint (WIDTH s) \<and> 0 \<le> sint y' \<and> sint y' < sint (HEIGHT s)"
proof -
  note r = sint16_range [of "WIDTH s"] sint16_range [of "HEIGHT s"]
    sint16_range [of x] sint16_range [of y]
  from g consider "rotation s = 0" | "rotation s = 1" | "rotation s = 2" | "rotation s = 3"
    unfolding geometry_ok_def by (auto split: if_splits)
  then show ?thesis
  proof cases
    case 1
    with g b show ?thesis
      by (simp add: geometry_ok_def in_bounds_def rotate_coords_def getRotation_def
          spec_transform_def)
  next
    case 2
    with g b r show ?thesis
      by (simp add: geometry_ok_def in_bounds_def rotate_coords_def getRotation_def
          spec_transform_def monooled_swap_eq sint_to_int16)
  next
    case 3
    with g b r show ?thesis
      by (simp add: geometry_ok_def in_bounds_def rotate_coords_def getRotation_def
          spec_transform_def sint_to_int16)
  next
    case 4
    with g b r show ?thesis
      by (simp add: geometry_ok_def in_bounds_def rotate_coords_def getRotation_def
          spec_transform_def monooled_swap_eq sint_to_int16)
  qed
qed

text \<open>
  Inside a \<open>W \<times> H\<close> display the product \<open>(Y / 8) * W\<close> and the subscript are not negative
  and lie below the allocation size.
\<close>

lemma index_range:
  fixes X Y W H :: int
  assumes "0 \<le> X" "X < W" "0 \<le> Y" "Y < H"
  shows "0 \<le> (Y div 8) * W \<and> (Y div 8) * W \<le> X + (Y div 8) * W \<and>
         X + (Y div 8) * W < W * ((H + 7) div 8)"
proof -
  have q: "0 \<le> Y div 8" using assms by simp
  have "Y div 8 + 1 \<le> (H + 7) div 8" using assms by linarith
  then have "(Y div 8 + 1) * W \<le> ((H + 7) div 8) * W"
    using assms by (intro mult_right_mono) auto
  then have "X + (Y div 8) * W < W * ((H + 7) div 8)"
    using assms by (simp add: algebra_simps)
  moreover have "0 \<le> (Y div 8) * W" using q assms by simp
  ultimately show ?thesis using assms by simp
qed

lemma target:
  assumes g: "geometry_ok s" and b: "in_bounds s x y"
  shows "buffer_index s (rotate_coords s (x, y)) = spec_byte s x y \<and>
         bit_mask (rotate_coords s (x, y)) = 2 ^ spec_bit s x y \<and>
         spec_bit s x y < 8 \<and> 0 \<le> spec_byte s x y \<and> spec_byte s x y < alloc_size s"
proof -
  from rotate_spec [OF g b] obtain x' y' where
    rot: "rotate_coords s (x, y) = (x', y')" and
    sp: "spec_transform (unat (rotation s)) (sint (WIDTH s)) (sint (HEIGHT s)) (sint x, sint y)
          = (sint x', sint y')" and
    rg: "0 \<le> sint x'" "sint x' < sint (WIDTH s)" "0 \<le> sint y'" "sint y' < sint (HEIGHT s)"
    by auto
  have idx: "buffer_index s (rotate_coords s (x, y)) = spec_byte s x y"
    using rg by (simp add: buffer_index_def spec_byte_def rot sp c_div_nonneg)
  have msk: "bit_mask (rotate_coords s (x, y)) = 2 ^ spec_bit s x y"
    by (simp add: bit_mask_def spec_bit_def rot sp)
  have "nat (sint y' AND 7) < 8"
    by (simp add: and_7_mod nat_less_iff)
  then have k: "spec_bit s x y < 8"
    by (simp add: spec_bit_def sp)
  have "0 \<le> sint (HEIGHT s) + 7" using rg by simp
  then have sz: "alloc_size s = sint (WIDTH s) * ((sint (HEIGHT s) + 7) div 8)"
    by (simp add: alloc_size_def c_div_nonneg)
  have "0 \<le> spec_byte s x y \<and> spec_byte s x y < alloc_size s"
    using index_range [OF rg] by (simp add: spec_byte_def sp sz)
  with idx msk k show ?thesis by simp
qed

text \<open>What \<^verbatim>\<open>drawPixel\<close> and \<^verbatim>\<open>getPixel\<close> do at an in-bounds coordinate of a consistent state.\<close>

lemma drawPixel_spec:
  assumes g: "geometry_ok s" and b: "in_bounds s x y"
    and buf: "buffer s = Some buf" and len: "int (length buf) = alloc_size s"
  shows "drawPixel s x y color =
           Some (s\<lparr>buffer := Some (buf[nat (spec_byte s x y) :=
                     paint color (spec_bit s x y) (buf ! nat (spec_byte s x y))])\<rparr>)"
proof -
  note t = target [OF g b]
  have same: "s\<lparr>buffer := Some (buf[nat (spec_byte s x y) := buf ! nat (spec_byte s x y)])\<rparr> = s"
    using buf by simp
  show ?thesis
    using t b buf len same
    by (simp add: drawPixel_def Let_def buffer_modify_def paint_def or_byte and_not_byte
        xor_byte colors_distinct)
qed

lemma getPixel_spec:
  assumes g: "geometry_ok s" and b: "in_bounds s x y"
    and buf: "buffer s = Some buf" and len: "int (length buf) = alloc_size s"
  shows "getPixel s x y = Some (bit (buf ! nat (spec_byte s x y)) (spec_bit s x y))"
  using target [OF g b] b buf len
  by (simp add: getPixel_def Let_def buffer_read_def test_byte)

text \<open>\<^verbatim>\<open>setRotation\<close> gives a consistent geometry and leaves the buffer alone.\<close>

lemma geometry_ok_setRotation: "geometry_ok (setRotation s r)"
proof -
  have "r AND 3 = 0 \<or> r AND 3 = 1 \<or> r AND 3 = 2 \<or> r AND 3 = 3"
  proof -
    have "unat (r AND 3) < 4"
      using word_and_le1 [of r 3] by (simp add: word_le_nat_alt)
    then have "unat (r AND 3) \<in> {0, 1, 2, 3}" by auto
    then show ?thesis
      by (auto simp add: word_unat_eq_iff)
  qed
  then show ?thesis
    by (auto simp add: geometry_ok_def setRotation_def Let_def)
qed

lemma setRotation_fields:
  "buffer (setRotation s r) = buffer s" "WIDTH (setRotation s r) = WIDTH s"
  "HEIGHT (setRotation s r) = HEIGHT s" "alloc_size (setRotation s r) = alloc_size s"
  by (simp_all add: setRotation_def Let_def alloc_size_def)

lemma in_bounds_positive:
  assumes "geometry_ok s" "in_bounds s x y"
  shows "0 < sint (WIDTH s) \<and> 0 < sint (HEIGHT s)"
  using assms unfolding geometry_ok_def in_bounds_def by (auto split: if_splits)

lemma draw_keeps_consistent:
  assumes g: "geometry_ok s" and b: "in_bounds s x y"
  shows "geometry_ok (s\<lparr>buffer := v\<rparr>)" "in_bounds (s\<lparr>buffer := v\<rparr>) x y"
    "alloc_size (s\<lparr>buffer := v\<rparr>) = alloc_size s"
    "spec_byte (s\<lparr>buffer := v\<rparr>) x y = spec_byte s x y"
    "spec_bit (s\<lparr>buffer := v\<rparr>) x y = spec_bit s x y"
  using g b by (simp_all add: geometry_ok_def in_bounds_def alloc_size_def spec_byte_def spec_bit_def)

lemma draw_then_get:
  assumes g: "geometry_ok s" and b: "in_bounds s x y"
    and buf: "buffer s = Some buf" and len: "int (length buf) = alloc_size s"
  shows "Option.bind (drawPixel s x y color) (\<lambda>s'. getPixel s' x y) =
           Some (bit (paint color (spec_bit s x y) (buf ! nat (spec_byte s x y))) (spec_bit s x y))"
proof -
  let ?i = "nat (spec_byte s x y)" and ?k = "spec_bit s x y"
  let ?buf' = "buf[?i := paint color ?k (buf ! ?i)]"
  let ?s' = "s\<lparr>buffer := Some ?buf'\<rparr>"
  have i: "?i < length buf"
    using target [OF g b] len by linarith
  have "getPixel ?s' x y = Some (bit (?buf' ! nat (spec_byte ?s' x y)) (spec_bit ?s' x y))"
    by (rule getPixel_spec [OF draw_keeps_consistent(1) [OF g b] draw_keeps_consistent(2) [OF g b]])
      (simp_all add: len draw_keeps_consistent(3) [OF g b])
  then have "getPixel ?s' x y = Some (bit (paint color ?k (buf ! ?i)) ?k)"
    using i by (simp add: draw_keeps_consistent [OF g b])
  then show ?thesis
    by (simp add: drawPixel_spec [OF g b buf len])
qed

lemma flip_bit_twice: "flip_bit k (flip_bit k (b :: uint8_t)) = b"
  by (simp add: flip_bit_eq_xor xor.assoc)

text \<open>A freshly constructed display has a consistent geometry and no buffer yet.\<close>

lemma constructed_geometry_ok:
  "geometry_ok (MonoOLED_i2c w h twi rst)" "geometry_ok (MonoOLED_spi w h dc rst cs)"
  by (simp_all add: geometry_ok_def MonoOLED_i2c_def MonoOLED_spi_def Adafruit_GFX_def blank_def)

text \<open>The small display is consistent, rotated or not.\<close>

lemma demo_rot1:
  "setRotation demo 1 = demo\<lparr>rotation := 1, width := 16, height := 4\<rparr>"
  by (simp add: setRotation_def demo_def MonoOLED_i2c_def Adafruit_GFX_def blank_def)

lemma demo_fields:
  "WIDTH demo = 4" "HEIGHT demo = 16" "width demo = 4" "height demo = 16" "rotation demo = 0"
  "buffer demo = Some [0, 0, 0, 0, 0, 0x81, 0, 0]"
  by (simp_all add: demo_def MonoOLED_i2c_def Adafruit_GFX_def blank_def)

lemma demo_alloc: "alloc_size demo = 8" "alloc_size (setRotation demo r) = 8"
  by (simp_all add: alloc_size_def setRotation_fields demo_fields c_div_def)

lemma demo_ok: "geometry_ok demo" "buffer_ok demo" "buffer_ok (setRotation demo r)"
  by (simp_all add: geometry_ok_def buffer_ok_def demo_fields demo_alloc setRotation_fields)

section \<open>Out-of-bounds coordinates and unknown colours\<close>

text \<open>
  C5.  For a coordinate with \<open>x < 0\<close> or \<open>x \<ge> width()\<close> or \<open>y < 0\<close> or \<open>y \<ge> height()\<close>,
  whatever the rotation, the colour and the rest of the state: \<^verbatim>\<open>getPixel\<close> returns false
  and \<^verbatim>\<open>drawPixel\<close> leaves the display object, and so every byte of the framebuffer, as
  it was.
\<close>

theorem out_of_bounds_ignored:
  assumes "sint x < 0 \<or> sint (width s) \<le> sint x \<or> sint y < 0 \<or> sint (height s) \<le> sint y"
  shows "getPixel s x y = Some False \<and> drawPixel s x y color = Some s"
proof -
  from assms have "\<not> in_bounds s x y"
    unfolding in_bounds_def by linarith
  then show ?thesis
    by (simp add: getPixel_def drawPixel_def)
qed

theorem out_of_bounds_ignored_witness:
  "(sint (- 1 :: int16_t) < 0 \<or> sint (width demo) \<le> sint (- 1 :: int16_t) \<or>
      sint (3 :: int16_t) < 0 \<or> sint (height demo) \<le> sint (3 :: int16_t)) \<and>
   getPixel demo (- 1) 3 = Some False \<and> drawPixel demo (- 1) 3 MONOOLED_WHITE = Some demo"
proof -
  have h: "sint (- 1 :: int16_t) < 0 \<or> sint (width demo) \<le> sint (- 1 :: int16_t) \<or>
      sint (3 :: int16_t) < 0 \<or> sint (height demo) \<le> sint (3 :: int16_t)"
    by simp
  show ?thesis
    using h out_of_bounds_ignored [OF h, of MONOOLED_WHITE] by simp
qed

text \<open>
  C10.  A colour that is none of \<^verbatim>\<open>MONOOLED_WHITE\<close>, \<^verbatim>\<open>MONOOLED_BLACK\<close> and
  \<^verbatim>\<open>MONOOLED_INVERSE\<close> matches no label of the colour \<^verbatim>\<open>switch\<close>: \<^verbatim>\<open>drawPixel\<close> returns
  with the display object, and so the whole framebuffer, unchanged, at every coordinate
  and under every rotation.
\<close>

theorem unknown_color_ignored:
  assumes "color \<noteq> MONOOLED_WHITE" and "color \<noteq> MONOOLED_BLACK"
    and "color \<noteq> MONOOLED_INVERSE"
  shows "drawPixel s x y color = Some s"
  using assms by (simp add: drawPixel_def Let_def)

theorem unknown_color_ignored_witness:
  "(7 :: uint16_t) \<noteq> MONOOLED_WHITE \<and> (7 :: uint16_t) \<noteq> MONOOLED_BLACK \<and>
   (7 :: uint16_t) \<noteq> MONOOLED_INVERSE \<and> drawPixel demo 1 9 7 = Some demo"
proof -
  have h: "(7 :: uint16_t) \<noteq> MONOOLED_WHITE" "(7 :: uint16_t) \<noteq> MONOOLED_BLACK"
    "(7 :: uint16_t) \<noteq> MONOOLED_INVERSE"
    by (simp_all add: MONOOLED_WHITE_def MONOOLED_BLACK_def MONOOLED_INVERSE_def)
  show ?thesis
    using h unknown_color_ignored [OF h, of demo 1 9] by simp
qed

section \<open>Pixel addressing\<close>

text \<open>
  C2.  In a consistent state, under any of the four rotations and with its buffer
  allocated, for every coordinate that passes the bounds check, \<^verbatim>\<open>drawPixel\<close> changes the
  buffer at the byte \<open>x' + (y'/8)*W\<close> only, which lies inside the buffer, and there at the
  bit \<open>y' & 7\<close> only, where \<open>(x', y')\<close> is the specification's transform of \<open>(x, y)\<close>: the
  bit is set for \<^verbatim>\<open>MONOOLED_WHITE\<close>, cleared for \<^verbatim>\<open>MONOOLED_BLACK\<close> and toggled for
  \<^verbatim>\<open>MONOOLED_INVERSE\<close>.  In particular, drawing \<open>(0, 0)\<close> under rotation 2 gives the same
  buffer as drawing \<open>(W - 1, H - 1)\<close> under rotation 0.
\<close>

theorem drawPixel_updates_target_bit:
  assumes g: "geometry_ok s" and b: "in_bounds s x y"
    and buf: "buffer s = Some buf" and len: "int (length buf) = alloc_size s"
  shows "0 \<le> spec_byte s x y \<and> spec_byte s x y < int (length buf) \<and> spec_bit s x y < 8 \<and>
         drawPixel s x y color =
           Some (s\<lparr>buffer := Some (buf[nat (spec_byte s x y) :=
                     paint color (spec_bit s x y) (buf ! nat (spec_byte s x y))])\<rparr>) \<and>
         map_option buffer (drawPixel (setRotation s 2) 0 0 color) =
           map_option buffer (drawPixel (setRotation s 0) (WIDTH s - 1) (HEIGHT s - 1) color)"
proof -
  have pos: "0 < sint (WIDTH s)" "0 < sint (HEIGHT s)"
    using in_bounds_positive [OF g b] by simp_all
  have w1: "sint (WIDTH s - 1) = sint (WIDTH s) - 1"
    using pos(1) sint16_range [of "WIDTH s"] sint_to_int16 [of "sint (WIDTH s) - 1"]
    by (simp add: to_int16_def)
  have h1: "sint (HEIGHT s - 1) = sint (HEIGHT s) - 1"
    using pos(2) sint16_range [of "HEIGHT s"] sint_to_int16 [of "sint (HEIGHT s) - 1"]
    by (simp add: to_int16_def)
  let ?s2 = "setRotation s 2" and ?s0 = "setRotation s 0"
  have r2: "rotation ?s2 = 2" "width ?s2 = WIDTH s" "height ?s2 = HEIGHT s"
    and r0: "rotation ?s0 = 0" "width ?s0 = WIDTH s" "height ?s0 = HEIGHT s"
    by (simp_all add: setRotation_def Let_def)
  have b2: "in_bounds ?s2 0 0"
    using pos by (simp add: in_bounds_def r2)
  have b0: "in_bounds ?s0 (WIDTH s - 1) (HEIGHT s - 1)"
    using pos by (simp add: in_bounds_def r0 w1 h1)
  have same_byte: "spec_byte ?s2 0 0 = spec_byte ?s0 (WIDTH s - 1) (HEIGHT s - 1)"
    by (simp add: spec_byte_def spec_transform_def r2 r0 w1 h1 setRotation_fields)
  have same_bit: "spec_bit ?s2 0 0 = spec_bit ?s0 (WIDTH s - 1) (HEIGHT s - 1)"
    by (simp add: spec_bit_def spec_transform_def r2 r0 w1 h1 setRotation_fields)
  have d2: "map_option buffer (drawPixel ?s2 0 0 color) =
      Some (Some (buf[nat (spec_byte ?s2 0 0) :=
              paint color (spec_bit ?s2 0 0) (buf ! nat (spec_byte ?s2 0 0))]))"
    using drawPixel_spec [OF geometry_ok_setRotation b2, of buf color] buf len
    by (simp add: setRotation_fields)
  have d0: "map_option buffer (drawPixel ?s0 (WIDTH s - 1) (HEIGHT s - 1) color) =
      Some (Some (buf[nat (spec_byte ?s0 (WIDTH s - 1) (HEIGHT s - 1)) :=
              paint color (spec_bit ?s0 (WIDTH s - 1) (HEIGHT s - 1))
                (buf ! nat (spec_byte ?s0 (WIDTH s - 1) (HEIGHT s - 1)))]))"
    using drawPixel_spec [OF geometry_ok_setRotation b0, of buf color] buf len
    by (simp add: setRotation_fields)
  have rot: "map_option buffer (drawPixel ?s2 0 0 color) =
      map_option buffer (drawPixel ?s0 (WIDTH s - 1) (HEIGHT s - 1) color)"
    by (simp only: d2 d0 same_byte same_bit)
  from target [OF g b] len drawPixel_spec [OF g b buf len, of color] rot
  show ?thesis by simp
qed

theorem drawPixel_updates_target_bit_witness:
  "geometry_ok (setRotation demo 1) \<and> in_bounds (setRotation demo 1) 9 2 \<and>
   buffer (setRotation demo 1) = Some [0, 0, 0, 0, 0, 0x81, 0, 0] \<and>
   int (length [0, 0, 0, 0, 0, 0x81, 0, 0 :: uint8_t]) = alloc_size (setRotation demo 1) \<and>
   spec_byte (setRotation demo 1) 9 2 = 5 \<and> spec_bit (setRotation demo 1) 9 2 = 1 \<and>
   drawPixel (setRotation demo 1) 9 2 MONOOLED_WHITE =
     Some ((setRotation demo 1)\<lparr>buffer := Some [0, 0, 0, 0, 0, 0x83, 0, 0]\<rparr>)"
proof -
  have g: "geometry_ok (setRotation demo 1)"
    by (rule geometry_ok_setRotation)
  have b: "in_bounds (setRotation demo 1) 9 2"
    by (simp add: demo_rot1 in_bounds_def)
  have buf: "buffer (setRotation demo 1) = Some [0, 0, 0, 0, 0, 0x81, 0, 0]"
    by (simp add: setRotation_fields demo_fields)
  have len: "int (length [0, 0, 0, 0, 0, 0x81, 0, 0 :: uint8_t]) = alloc_size (setRotation demo 1)"
    by (simp add: demo_alloc)
  have byte: "spec_byte (setRotation demo 1) 9 2 = 5"
    by (simp add: spec_byte_def spec_transform_def demo_rot1 demo_fields)
  have bit: "spec_bit (setRotation demo 1) 9 2 = 1"
    by (simp add: spec_bit_def spec_transform_def demo_rot1 demo_fields and_7_mod)
  have p: "paint MONOOLED_WHITE (Suc 0) (0x81 :: uint8_t) = 0x83"
    by (simp add: paint_def set_bit_eq_or)
  from drawPixel_updates_target_bit [OF g b buf len, of MONOOLED_WHITE]
  have "drawPixel (setRotation demo 1) 9 2 MONOOLED_WHITE =
     Some ((setRotation demo 1)\<lparr>buffer := Some [0, 0, 0, 0, 0, 0x83, 0, 0]\<rparr>)"
    by (simp add: byte bit p)
  with g b buf len byte bit show ?thesis by simp
qed

text \<open>
  C9.  For every coordinate that passes the bounds check against the rotated logical
  size, under each rotation, the subscript \<^verbatim>\<open>x + (y / 8) * WIDTH\<close> that the code computes
  after its rotation \<^verbatim>\<open>switch\<close> is at least 0 and below \<^verbatim>\<open>WIDTH * ((HEIGHT + 7) / 8)\<close>,
  the size that \<^verbatim>\<open>_init\<close> allocates; so with a buffer of that size neither \<^verbatim>\<open>drawPixel\<close>
  nor \<^verbatim>\<open>getPixel\<close> accesses memory outside it.
\<close>

theorem index_in_allocated_range:
  assumes g: "geometry_ok s" and b: "in_bounds s x y"
  shows "0 \<le> buffer_index s (rotate_coords s (x, y)) \<and>
         buffer_index s (rotate_coords s (x, y)) < alloc_size s \<and>
         (buffer_ok s \<longrightarrow> drawPixel s x y color \<noteq> None \<and> getPixel s x y \<noteq> None)"
proof -
  have rng: "0 \<le> buffer_index s (rotate_coords s (x, y)) \<and>
      buffer_index s (rotate_coords s (x, y)) < alloc_size s"
    using target [OF g b] by simp
  have "drawPixel s x y color \<noteq> None \<and> getPixel s x y \<noteq> None" if "buffer_ok s"
  proof -
    from that obtain buf where buf: "buffer s = Some buf"
      and len: "int (length buf) = alloc_size s"
      by (auto simp add: buffer_ok_def split: option.splits)
    show ?thesis
      by (simp add: drawPixel_spec [OF g b buf len] getPixel_spec [OF g b buf len])
  qed
  with rng show ?thesis by simp
qed

theorem index_in_allocated_range_witness:
  "geometry_ok (setRotation demo 1) \<and> in_bounds (setRotation demo 1) 9 2 \<and>
   buffer_ok (setRotation demo 1) \<and>
   buffer_index (setRotation demo 1) (rotate_coords (setRotation demo 1) (9, 2)) = 5 \<and>
   alloc_size (setRotation demo 1) = 8 \<and>
   drawPixel (setRotation demo 1) 9 2 MONOOLED_INVERSE \<noteq> None \<and>
   getPixel (setRotation demo 1) 9 2 \<noteq> None"
proof -
  have g: "geometry_ok (setRotation demo 1)"
    by (rule geometry_ok_setRotation)
  have b: "in_bounds (setRotation demo 1) 9 2"
    by (simp add: demo_rot1 in_bounds_def)
  have bo: "buffer_ok (setRotation demo 1)"
    by (rule demo_ok)
  have i: "buffer_index (setRotation demo 1) (rotate_coords (setRotation demo 1) (9, 2)) = 5"
    by (simp add: demo_rot1 demo_fields buffer_index_def rotate_coords_def getRotation_def
        monooled_swap_eq to_int16_def c_div_def)
  from index_in_allocated_range [OF g b, of MONOOLED_INVERSE] g b bo i
  show ?thesis by (simp add: demo_alloc)
qed

section \<open>Writing and reading back\<close>

text \<open>
  C3.  In a consistent state with its buffer allocated, at every in-bounds coordinate and
  under each rotation: \<^verbatim>\<open>drawPixel\<close> with \<^verbatim>\<open>MONOOLED_WHITE\<close> followed by \<^verbatim>\<open>getPixel\<close> at
  the same coordinate returns true, and with \<^verbatim>\<open>MONOOLED_BLACK\<close> it returns false.
\<close>

theorem set_then_get:
  assumes g: "geometry_ok s" and bo: "buffer_ok s" and b: "in_bounds s x y"
  shows "Option.bind (drawPixel s x y MONOOLED_WHITE) (\<lambda>s'. getPixel s' x y) = Some True \<and>
         Option.bind (drawPixel s x y MONOOLED_BLACK) (\<lambda>s'. getPixel s' x y) = Some False"
proof -
  from bo obtain buf where buf: "buffer s = Some buf" and len: "int (length buf) = alloc_size s"
    by (auto simp add: buffer_ok_def split: option.splits)
  have k: "spec_bit s x y < 8"
    using target [OF g b] by simp
  show ?thesis
    using k by (simp add: draw_then_get [OF g b buf len] paint_def colors_distinct
        colors_distinct [symmetric] bit_set_bit_iff bit_unset_bit_iff)
qed

theorem set_then_get_witness:
  "geometry_ok (setRotation demo 3) \<and> buffer_ok (setRotation demo 3) \<and>
   in_bounds (setRotation demo 3) 9 2 \<and>
   Option.bind (drawPixel (setRotation demo 3) 9 2 MONOOLED_WHITE)
     (\<lambda>s'. getPixel s' 9 2) = Some True \<and>
   Option.bind (drawPixel (setRotation demo 3) 9 2 MONOOLED_BLACK)
     (\<lambda>s'. getPixel s' 9 2) = Some False"
proof -
  have g: "geometry_ok (setRotation demo 3)"
    by (rule geometry_ok_setRotation)
  have bo: "buffer_ok (setRotation demo 3)"
    by (rule demo_ok)
  have b: "in_bounds (setRotation demo 3) 9 2"
    by (simp add: setRotation_def demo_fields in_bounds_def)
  from set_then_get [OF g bo b] g bo b show ?thesis by simp
qed

text \<open>
  C4.  In a consistent state with its buffer allocated, at every coordinate (in bounds or
  not), under each rotation and whatever the buffer holds: two consecutive calls of
  \<^verbatim>\<open>drawPixel\<close> with \<^verbatim>\<open>MONOOLED_INVERSE\<close> give back the state they started from, with
  the original framebuffer.
\<close>

theorem invert_twice_restores:
  assumes g: "geometry_ok s" and bo: "buffer_ok s"
  shows "Option.bind (drawPixel s x y MONOOLED_INVERSE)
           (\<lambda>s'. drawPixel s' x y MONOOLED_INVERSE) = Some s"
proof (cases "in_bounds s x y")
  case False
  then show ?thesis by (simp add: drawPixel_def)
next
  case b: True
  from bo obtain buf where buf: "buffer s = Some buf" and len: "int (length buf) = alloc_size s"
    by (auto simp add: buffer_ok_def split: option.splits)
  let ?i = "nat (spec_byte s x y)" and ?k = "spec_bit s x y"
  let ?buf' = "buf[?i := paint MONOOLED_INVERSE ?k (buf ! ?i)]"
  let ?s' = "s\<lparr>buffer := Some ?buf'\<rparr>"
  have i: "?i < length buf"
    using target [OF g b] len by linarith
  have first: "drawPixel s x y MONOOLED_INVERSE = Some ?s'"
    by (rule drawPixel_spec [OF g b buf len])
  have "drawPixel ?s' x y MONOOLED_INVERSE =
      Some (?s'\<lparr>buffer := Some (?buf'[nat (spec_byte ?s' x y) :=
         paint MONOOLED_INVERSE (spec_bit ?s' x y) (?buf' ! nat (spec_byte ?s' x y))])\<rparr>)"
    by (rule drawPixel_spec [OF draw_keeps_consistent(1) [OF g b] draw_keeps_consistent(2) [OF g b]])
      (simp_all add: len draw_keeps_consistent(3) [OF g b])
  then have "drawPixel ?s' x y MONOOLED_INVERSE = Some (s\<lparr>buffer := Some buf\<rparr>)"
    using i by (simp add: draw_keeps_consistent [OF g b] paint_def colors_distinct flip_bit_twice)
  then have second: "drawPixel ?s' x y MONOOLED_INVERSE = Some s"
    using buf by simp
  show ?thesis
    by (simp add: first second)
qed

theorem invert_twice_restores_witness:
  "geometry_ok demo \<and> buffer_ok demo \<and>
   Option.bind (drawPixel demo 1 9 MONOOLED_INVERSE)
     (\<lambda>s'. drawPixel s' 1 9 MONOOLED_INVERSE) = Some demo"
  using invert_twice_restores [OF demo_ok(1) demo_ok(2), of 1 9] demo_ok(1) demo_ok(2)
  by simp

text \<open>
  C6.  With a buffer of the allocation size, \<^verbatim>\<open>clearDisplay\<close> leaves a buffer of
  \<^verbatim>\<open>WIDTH * ((HEIGHT + 7) / 8)\<close> bytes that are all 0; then \<^verbatim>\<open>getPixel\<close> returns false at
  every in-bounds coordinate, after \<^verbatim>\<open>setRotation\<close> to any rotation and, in a consistent
  state, under the current one.
\<close>

theorem clearDisplay_all_off:
  assumes bo: "buffer_ok s"
  shows "\<exists>s'. clearDisplay s = Some s' \<and>
           buffer s' = Some (replicate (nat (alloc_size s)) 0) \<and>
           (\<forall>r x y. in_bounds (setRotation s' r) x y \<longrightarrow>
                      getPixel (setRotation s' r) x y = Some False) \<and>
           (geometry_ok s \<longrightarrow> (\<forall>x y. in_bounds s' x y \<longrightarrow> getPixel s' x y = Some False))"
proof -
  from bo obtain buf where buf: "buffer s = Some buf" and len: "int (length buf) = alloc_size s"
    by (auto simp add: buffer_ok_def split: option.splits)
  let ?z = "replicate (nat (alloc_size s)) (0 :: uint8_t)"
  let ?s' = "s\<lparr>buffer := Some ?z\<rparr>"
  have n: "0 \<le> alloc_size s" using len by linarith
  have clr: "clearDisplay s = Some ?s'"
    using buf len n by (simp add: clearDisplay_def Let_def)
  have zlen: "int (length ?z) = alloc_size s" using n by simp
  have read: "getPixel t x y = Some False"
    if t: "geometry_ok t" "in_bounds t x y" "buffer t = Some ?z" "alloc_size t = alloc_size s"
    for t x y
  proof -
    have "nat (spec_byte t x y) < nat (alloc_size s)"
      using target [OF t(1,2)] t(4) by simp
    then show ?thesis
      using getPixel_spec [OF t(1,2,3)] zlen t(4) by simp
  qed
  have rot: "getPixel (setRotation ?s' r) x y = Some False"
    if "in_bounds (setRotation ?s' r) x y" for r x y
    by (rule read [OF geometry_ok_setRotation that])
      (simp_all add: setRotation_fields alloc_size_def)
  have cur: "getPixel ?s' x y = Some False" if "geometry_ok s" "in_bounds ?s' x y" for x y
    by (rule read [OF _ that(2)]) (use that(1) in \<open>simp_all add: geometry_ok_def alloc_size_def\<close>)
  from clr rot cur show ?thesis by simp
qed

theorem clearDisplay_all_off_witness:
  "buffer_ok demo \<and> geometry_ok demo \<and>
   (\<exists>s'. clearDisplay demo = Some s' \<and> buffer s' = Some (replicate 8 0) \<and>
      in_bounds (setRotation s' 1) 9 2 \<and> getPixel (setRotation s' 1) 9 2 = Some False \<and>
      in_bounds s' 1 9 \<and> getPixel s' 1 9 = Some False)"
proof -
  from clearDisplay_all_off [OF demo_ok(2)] obtain s' where
    c: "clearDisplay demo = Some s'" and
    z: "buffer s' = Some (replicate (nat (alloc_size demo)) 0)" and
    r: "\<And>r x y. in_bounds (setRotation s' r) x y \<Longrightarrow> getPixel (setRotation s' r) x y = Some False" and
    k: "\<And>x y. geometry_ok demo \<Longrightarrow> in_bounds s' x y \<Longrightarrow> getPixel s' x y = Some False"
    by blast
  have s': "s' = demo\<lparr>buffer := Some (replicate 8 0)\<rparr>"
    using c by (simp add: clearDisplay_def demo_fields demo_alloc)
  have b1: "in_bounds (setRotation s' 1) 9 2"
    by (simp add: s' setRotation_def demo_fields in_bounds_def)
  have b0: "in_bounds s' 1 9"
    by (simp add: s' demo_fields in_bounds_def)
  from c z r [OF b1] k [OF demo_ok(1) b0] b1 b0 demo_ok(1) demo_ok(2)
  show ?thesis by (simp add: demo_alloc)
qed

section \<open>Bring-up\<close>

text \<open>
  The allocation of \<^verbatim>\<open>_init\<close> gives a buffer of the allocation size and changes nothing
  else; on such a buffer \<^verbatim>\<open>clearDisplay\<close> and the rest of \<^verbatim>\<open>_init\<close> are defined.
\<close>

lemma allocate_ok:
  assumes "buffer_ok s \<or> buffer s = None \<and> malloc_ok e \<and> 0 \<le> alloc_size s"
  shows "buffer_ok (allocate e s)"
  using assms
  by (auto simp add: allocate_def buffer_ok_def alloc_size_def split: option.splits)

lemma allocate_fields:
  "theWire (allocate e s) = theWire s" "spi_dev (allocate e s) = spi_dev s"
  "rstPin (allocate e s) = rstPin s" "dcPin (allocate e s) = dcPin s"
  "WIDTH (allocate e s) = WIDTH s" "HEIGHT (allocate e s) = HEIGHT s"
  "width (allocate e s) = width s" "height (allocate e s) = height s"
  "rotation (allocate e s) = rotation s"
  by (simp_all add: allocate_def)

lemma clearDisplay_ok:
  assumes "buffer_ok s"
  shows "clearDisplay s = Some (s\<lparr>buffer := Some (replicate (nat (alloc_size s)) 0)\<rparr>)"
proof -
  from assms obtain buf where "buffer s = Some buf" "int (length buf) = alloc_size s"
    by (auto simp add: buffer_ok_def split: option.splits)
  moreover from this have "0 \<le> alloc_size s" by linarith
  ultimately show ?thesis
    by (simp add: clearDisplay_def Let_def)
qed

lemma init_tail_ok:
  assumes "buffer_ok s"
  shows "init_tail s tr reset =
           Some (Returns True, s\<lparr>buffer := Some (replicate (nat (alloc_size s)) 0)\<rparr>,
                 tr @ (if reset \<and> 0 \<le> sint (rstPin s)
                       then [PinMode (rstPin s) OUTPUT,
                             DigitalWrite (rstPin s) HIGH, Delay 1,
                             DigitalWrite (rstPin s) LOW, Delay 10,
                             DigitalWrite (rstPin s) HIGH, Delay 10]
                       else []))"
  by (simp add: init_tail_def clearDisplay_ok [OF assms])

lemma init_tail_quiet:
  assumes "init_tail s tr reset = Some (r, s', tr')" and "\<not> (reset \<and> 0 \<le> sint (rstPin s))"
  shows "tr' = tr"
proof -
  from assms(1) obtain t where "clearDisplay s = Some t"
    by (auto simp add: init_tail_def split: option.splits)
  moreover from this have "rstPin t = rstPin s"
    by (auto simp add: clearDisplay_def Let_def split: option.splits if_splits)
  ultimately show ?thesis
    using assms by (auto simp add: init_tail_def)
qed

lemma cleared_ok:
  assumes "buffer_ok t"
  shows "buffer_ok (t\<lparr>buffer := Some (replicate (nat (alloc_size t)) 0)\<rparr>)"
proof -
  from assms obtain buf where "buffer t = Some buf" "int (length buf) = alloc_size t"
    by (auto simp add: buffer_ok_def split: option.splits)
  then have "0 \<le> alloc_size t" by linarith
  then show ?thesis
    by (simp add: buffer_ok_def alloc_size_def)
qed

text \<open>A bring-up that returns true leaves a consistent state with an allocated buffer.\<close>

lemma init_success_consistent:
  assumes i: "oled_init e s tr addr reset = Some (Returns True, s', tr')"
    and g: "geometry_ok s" and b: "buffer s = None \<or> buffer_ok s"
  shows "geometry_ok s' \<and> buffer_ok s'"
proof -
  have *: "geometry_ok t' \<and> buffer_ok t'"
    if "init_tail t tr0 reset = Some (Returns True, t', tr1)" "geometry_ok t" "buffer_ok t"
    for t t' tr0 tr1
  proof -
    from that(1) have "t' = t\<lparr>buffer := Some (replicate (nat (alloc_size t)) 0)\<rparr>"
      by (simp add: init_tail_ok [OF that(3)])
    with that(2) cleared_ok [OF that(3)] show ?thesis
      by (simp add: geometry_ok_def)
  qed
  have ga: "geometry_ok (allocate e s)" "\<And>v. geometry_ok (allocate e s\<lparr>i2c_dev := v\<rparr>)"
    using g by (simp_all add: geometry_ok_def allocate_fields)
  have ba: "buffer_ok (allocate e s)" "\<And>v. buffer_ok (allocate e s\<lparr>i2c_dev := v\<rparr>)"
    if "buffer (allocate e s) \<noteq> None"
    using b that
    by (auto simp add: allocate_def buffer_ok_def alloc_size_def split: option.splits if_splits)
  from i show ?thesis
    by (auto simp add: oled_init_def Let_def split: if_splits
        dest: * [OF _ ga(1) ba(1)] * [OF _ ga(2) ba(2)])
qed

lemma i2c_display_fields:
  "buffer (MonoOLED_i2c w h twi rst) = None" "theWire (MonoOLED_i2c w h twi rst) = twi"
  "rstPin (MonoOLED_i2c w h twi rst) = rst" "WIDTH (MonoOLED_i2c w h twi rst) = w"
  "HEIGHT (MonoOLED_i2c w h twi rst) = h"
  by (simp_all add: MonoOLED_i2c_def Adafruit_GFX_def blank_def)

lemma spi_display_fields:
  "buffer (MonoOLED_spi w h dc rst cs) = None" "theWire (MonoOLED_spi w h dc rst cs) = False"
  "spi_dev (MonoOLED_spi w h dc rst cs) = True" "rstPin (MonoOLED_spi w h dc rst cs) = rst"
  "WIDTH (MonoOLED_spi w h dc rst cs) = w" "HEIGHT (MonoOLED_spi w h dc rst cs) = h"
  "dcPin (MonoOLED_spi w h dc rst cs) = dc"
  by (simp_all add: MonoOLED_spi_def Adafruit_GFX_def blank_def)

lemma all_ok_fields:
  "malloc_ok all_ok" "i2c_new_ok all_ok" "i2c_begin_ok all_ok" "spi_begin_ok all_ok"
  by (simp_all add: all_ok_def)

text \<open>
  C7.  When the allocation succeeds (or the buffer is there already) and the transport
  opens, \<^verbatim>\<open>_init\<close> returns true; if \<open>reset\<close> is true and the reset pin is not negative,
  the events of the call end with \<^verbatim>\<open>pinMode(rstPin, OUTPUT)\<close> and then HIGH, 1 ms, LOW,
  10 ms, HIGH, 10 ms on the reset pin, and these are all the pin writes and delays of the
  call.  If \<open>reset\<close> is false or the reset pin is negative (the sentinel \<open>-1\<close>), no call
  of \<^verbatim>\<open>_init\<close>, successful or not, writes a pin or waits.
\<close>

theorem init_reset_sequence:
  "((buffer_ok s \<or> buffer s = None \<and> malloc_ok e \<and> 0 \<le> alloc_size s) \<and>
    (if theWire s then i2c_new_ok e \<and> i2c_begin_ok e else spi_dev s \<and> spi_begin_ok e) \<longrightarrow>
    (\<exists>s' pre. oled_init e s tr addr reset =
        Some (Returns True, s',
              tr @ pre @ (if reset \<and> 0 \<le> sint (rstPin s)
                          then [PinMode (rstPin s) OUTPUT,
                                DigitalWrite (rstPin s) HIGH, Delay 1,
                                DigitalWrite (rstPin s) LOW, Delay 10,
                                DigitalWrite (rstPin s) HIGH, Delay 10]
                          else [])) \<and>
        pin_activity pre = [])) \<and>
   (\<not> (reset \<and> 0 \<le> sint (rstPin s)) \<longrightarrow>
    (\<forall>r s' tr'. oled_init e s tr addr reset = Some (r, s', tr') \<longrightarrow>
       (\<exists>ev. tr' = tr @ ev \<and> pin_activity ev = [])))"
proof (intro conjI impI allI)
  assume h: "(buffer_ok s \<or> buffer s = None \<and> malloc_ok e \<and> 0 \<le> alloc_size s) \<and>
    (if theWire s then i2c_new_ok e \<and> i2c_begin_ok e else spi_dev s \<and> spi_begin_ok e)"
  let ?a = "allocate e s"
  let ?pulse = "if reset \<and> 0 \<le> sint (rstPin s)
                then [PinMode (rstPin s) OUTPUT,
                      DigitalWrite (rstPin s) HIGH, Delay 1,
                      DigitalWrite (rstPin s) LOW, Delay 10,
                      DigitalWrite (rstPin s) HIGH, Delay 10]
                else []"
  from h have a: "buffer_ok ?a" by (simp add: allocate_ok)
  then obtain abuf where nn: "buffer ?a = Some abuf"
    by (auto simp add: buffer_ok_def split: option.splits)
  show "\<exists>s' pre. oled_init e s tr addr reset = Some (Returns True, s', tr @ pre @ ?pulse) \<and>
          pin_activity pre = []"
  proof (cases "theWire s")
    case True
    let ?b = "?a\<lparr>i2c_dev := Some addr\<rparr>"
    from a have b: "buffer_ok ?b"
      by (auto simp add: buffer_ok_def alloc_size_def split: option.splits)
    have "oled_init e s tr addr reset = init_tail ?b (tr @ [I2C_new addr, I2C_begin]) reset"
      using True h nn by (simp add: oled_init_def Let_def allocate_fields)
    then have "oled_init e s tr addr reset =
        Some (Returns True, ?b\<lparr>buffer := Some (replicate (nat (alloc_size ?b)) 0)\<rparr>,
              tr @ [I2C_new addr, I2C_begin] @ ?pulse)"
      by (simp add: init_tail_ok [OF b] allocate_fields)
    moreover have "pin_activity [I2C_new addr, I2C_begin] = []" by simp
    ultimately show ?thesis by blast
  next
    case False
    have "oled_init e s tr addr reset =
        init_tail ?a (tr @ [SPI_begin, PinMode (dcPin ?a) OUTPUT]) reset"
      using False h nn by (simp add: oled_init_def Let_def allocate_fields)
    then have "oled_init e s tr addr reset =
        Some (Returns True, ?a\<lparr>buffer := Some (replicate (nat (alloc_size ?a)) 0)\<rparr>,
              tr @ [SPI_begin, PinMode (dcPin s) OUTPUT] @ ?pulse)"
      by (simp add: init_tail_ok [OF a] allocate_fields)
    moreover have "pin_activity [SPI_begin, PinMode (dcPin s) OUTPUT] = []" by simp
    ultimately show ?thesis by blast
  qed
next
  fix r s' tr'
  assume q: "\<not> (reset \<and> 0 \<le> sint (rstPin s))"
    and i: "oled_init e s tr addr reset = Some (r, s', tr')"
  let ?a = "allocate e s"
  from q have qa: "\<not> (reset \<and> 0 \<le> sint (rstPin ?a))"
    "\<And>v. \<not> (reset \<and> 0 \<le> sint (rstPin (?a\<lparr>i2c_dev := v\<rparr>)))"
    by (simp_all add: allocate_fields)
  from i consider "tr' = tr" | "tr' = tr @ [I2C_new addr]"
    | "tr' = tr @ [I2C_new addr, I2C_begin]" | "tr' = tr @ [SPI_begin]"
    | "tr' = tr @ [SPI_begin, PinMode (dcPin ?a) OUTPUT]"
    by (auto simp add: oled_init_def Let_def split: if_splits dest!: init_tail_quiet [OF _ qa(1)]
        init_tail_quiet [OF _ qa(2)])
  then show "\<exists>ev. tr' = tr @ ev \<and> pin_activity ev = []"
  proof cases
    case 1
    then have "tr' = tr @ [] \<and> pin_activity [] = []" by simp
    then show ?thesis by blast
  next
    case 2
    then have "tr' = tr @ [I2C_new addr] \<and> pin_activity [I2C_new addr] = []" by simp
    then show ?thesis by blast
  next
    case 3
    then have "tr' = tr @ [I2C_new addr, I2C_begin] \<and>
        pin_activity [I2C_new addr, I2C_begin] = []" by simp
    then show ?thesis by blast
  next
    case 4
    then have "tr' = tr @ [SPI_begin] \<and> pin_activity [SPI_begin] = []" by simp
    then show ?thesis by blast
  next
    case 5
    then have "tr' = tr @ [SPI_begin, PinMode (dcPin ?a) OUTPUT] \<and>
        pin_activity [SPI_begin, PinMode (dcPin ?a) OUTPUT] = []" by simp
    then show ?thesis by blast
  qed
qed

theorem init_reset_sequence_witness:
  "(buffer (MonoOLED_i2c 128 64 True 4) = None \<and> malloc_ok all_ok \<and>
      0 \<le> alloc_size (MonoOLED_i2c 128 64 True 4)) \<and>
   theWire (MonoOLED_i2c 128 64 True 4) \<and> i2c_new_ok all_ok \<and> i2c_begin_ok all_ok \<and>
   (\<exists>s' pre. oled_init all_ok (MonoOLED_i2c 128 64 True 4) [] 0x3C True =
        Some (Returns True, s',
              pre @ [PinMode 4 OUTPUT, DigitalWrite 4 HIGH, Delay 1, DigitalWrite 4 LOW,
                     Delay 10, DigitalWrite 4 HIGH, Delay 10]) \<and>
        pin_activity pre = []) \<and>
   \<not> 0 \<le> sint (rstPin (MonoOLED_i2c 128 64 True (- 1))) \<and>
   (\<exists>s' ev. oled_init all_ok (MonoOLED_i2c 128 64 True (- 1)) [] 0x3C True =
        Some (Returns True, s', ev) \<and> pin_activity ev = [])"
proof -
  have sz: "alloc_size (MonoOLED_i2c 128 64 True rst) = 1024" for rst
    by (simp add: alloc_size_def i2c_display_fields c_div_def)
  have a: "(buffer_ok (MonoOLED_i2c 128 64 True rst) \<or>
       buffer (MonoOLED_i2c 128 64 True rst) = None \<and> malloc_ok all_ok \<and>
       0 \<le> alloc_size (MonoOLED_i2c 128 64 True rst)) \<and>
     (if theWire (MonoOLED_i2c 128 64 True rst) then i2c_new_ok all_ok \<and> i2c_begin_ok all_ok
      else spi_dev (MonoOLED_i2c 128 64 True rst) \<and> spi_begin_ok all_ok)" for rst
    by (simp add: i2c_display_fields all_ok_fields sz)
  have p: "0 \<le> sint (rstPin (MonoOLED_i2c 128 64 True 4))"
    and n: "\<not> 0 \<le> sint (rstPin (MonoOLED_i2c 128 64 True (- 1)))"
    by (simp_all add: i2c_display_fields)
  from init_reset_sequence [of "MonoOLED_i2c 128 64 True 4" all_ok "[]" "0x3C" True,
      THEN conjunct1, THEN mp, OF a [of 4]] p
  have one: "\<exists>s' pre. oled_init all_ok (MonoOLED_i2c 128 64 True 4) [] 0x3C True =
        Some (Returns True, s',
              pre @ [PinMode 4 OUTPUT, DigitalWrite 4 HIGH, Delay 1, DigitalWrite 4 LOW,
                     Delay 10, DigitalWrite 4 HIGH, Delay 10]) \<and>
        pin_activity pre = []"
    by (simp add: i2c_display_fields)
  from init_reset_sequence [of "MonoOLED_i2c 128 64 True (- 1)" all_ok "[]" "0x3C" True]
    a [of "- 1"] n
  have two: "\<exists>s' ev. oled_init all_ok (MonoOLED_i2c 128 64 True (- 1)) [] 0x3C True =
        Some (Returns True, s', ev) \<and> pin_activity ev = []"
    by auto
  from one two n show ?thesis
    by (simp add: i2c_display_fields all_ok_fields sz)
qed

text \<open>
  C1.  A software-SPI display whose transport device fails to open: \<^verbatim>\<open>_init\<close> leaves
  through the bare \<^verbatim>\<open>return;\<close> of line 241 and hands the caller no boolean, where the
  I2C branch returns false.
\<close>

theorem init_spi_open_failure_no_value:
  "oled_init (all_ok\<lparr>spi_begin_ok := False\<rparr>) (MonoOLED_spi 4 16 5 4 6) [] 0x3C True =
     Some (ReturnsNoValue,
           (MonoOLED_spi 4 16 5 4 6)\<lparr>buffer := Some [0xAA, 0xAA, 0xAA, 0xAA, 0xAA, 0xAA, 0xAA, 0xAA]\<rparr>,
           [SPI_begin])"
proof -
  have sz: "alloc_size (MonoOLED_spi 4 16 5 4 6) = 8"
    by (simp add: alloc_size_def spi_display_fields c_div_def)
  have "[0..<8] = [0, 1, 2, 3, 4, 5, 6, 7 :: nat]"
    by (simp add: upt_rec)
  then have al: "allocate (all_ok\<lparr>spi_begin_ok := False\<rparr>) (MonoOLED_spi 4 16 5 4 6) =
      (MonoOLED_spi 4 16 5 4 6)\<lparr>buffer := Some [0xAA, 0xAA, 0xAA, 0xAA, 0xAA, 0xAA, 0xAA, 0xAA]\<rparr>"
    by (simp add: allocate_def spi_display_fields sz all_ok_def)
  show ?thesis
    by (simp add: oled_init_def Let_def al spi_display_fields)
qed

section \<open>Command lists\<close>

text \<open>The loop of the serial path writes the bytes of the table one by one and ends.\<close>

lemma spi_stream_all:
  "length c = unat n \<Longrightarrow> spi_stream n c tr = Some (tr @ map (\<lambda>b. SPI_write [b]) c)"
proof (induction c arbitrary: n tr)
  case Nil
  then have "n = 0" by (simp add: unat_eq_0)
  then show ?case by (simp add: spi_stream.simps)
next
  case (Cons b c)
  then have n: "n \<noteq> 0" by auto
  with Cons.prems have "length c = unat (n - 1)"
    by (simp add: unat_minus_one)
  from Cons.IH [OF this] n show ?case
    by (subst spi_stream.simps) simp
qed

text \<open>
  C8.  For a command table of \<open>n\<close> bytes: with an I2C device, \<^verbatim>\<open>oled_commandList\<close> makes
  one transport write that carries the whole table behind the one-byte prefix \<open>0x00\<close>,
  and returns what that write returns, so false exactly when it fails; on the serial
  path it drives the data/command pin low, writes the bytes one at a time and returns
  true.
\<close>

theorem commandList_single_i2c_write:
  "(i2c_dev s \<noteq> None \<and> length c = unat n \<longrightarrow>
      oled_commandList e s tr c n =
        Some (i2c_write_ok e, tr @ [I2C_write c True [0x00]])) \<and>
   (i2c_dev s = None \<and> spi_dev s \<and> length c = unat n \<longrightarrow>
      oled_commandList e s tr c n =
        Some (True, tr @ DigitalWrite (dcPin s) LOW # map (\<lambda>b. SPI_write [b]) c))"
  by (auto simp add: oled_commandList_def Let_def spi_stream_all)

theorem commandList_single_i2c_write_witness:
  "i2c_dev (demo\<lparr>i2c_dev := Some 0x3C\<rparr>) \<noteq> None \<and>
   length [0xAE, 0xD5, 0x80, 0xA8, 0x3F :: uint8_t] = unat (5 :: uint8_t) \<and>
   oled_commandList (all_ok\<lparr>i2c_write_ok := False\<rparr>) (demo\<lparr>i2c_dev := Some 0x3C\<rparr>) []
       [0xAE, 0xD5, 0x80, 0xA8, 0x3F] 5 =
     Some (False, [I2C_write [0xAE, 0xD5, 0x80, 0xA8, 0x3F] True [0x00]]) \<and>
   i2c_dev (MonoOLED_spi 4 16 5 4 6) = None \<and> spi_dev (MonoOLED_spi 4 16 5 4 6) \<and>
   oled_commandList all_ok (MonoOLED_spi 4 16 5 4 6) [] [0xAE, 0xD5, 0x80, 0xA8, 0x3F] 5 =
     Some (True, [DigitalWrite 5 LOW, SPI_write [0xAE], SPI_write [0xD5], SPI_write [0x80],
                  SPI_write [0xA8], SPI_write [0x3F]])"
proof -
  have i: "i2c_dev (demo\<lparr>i2c_dev := Some 0x3C\<rparr>) \<noteq> None"
    by simp
  have l: "length [0xAE, 0xD5, 0x80, 0xA8, 0x3F :: uint8_t] = unat (5 :: uint8_t)"
    by simp
  have sp: "i2c_dev (MonoOLED_spi 4 16 5 4 6) = None" "spi_dev (MonoOLED_spi 4 16 5 4 6)"
    "dcPin (MonoOLED_spi 4 16 5 4 6) = 5"
    by (simp_all add: MonoOLED_spi_def Adafruit_GFX_def blank_def)
  from commandList_single_i2c_write
      [of "demo\<lparr>i2c_dev := Some 0x3C\<rparr>" "[0xAE, 0xD5, 0x80, 0xA8, 0x3F]" 5
          "all_ok\<lparr>i2c_write_ok := False\<rparr>" "[]"]
    commandList_single_i2c_write
      [of "MonoOLED_spi 4 16 5 4 6" "[0xAE, 0xD5, 0x80, 0xA8, 0x3F]" 5 all_ok "[]"]
    i l sp
  show ?thesis by simp
qed

end
